theory Spec2Isabelle
  imports Main "HOL-Library.Word"
begin

section \<open>The advanced button manager (libs/adv\_button/adv\_button.c)\<close>

text \<open>
  A shallow embedding of \<^verbatim>\<open>adv_button.c\<close>. The C file keeps a singly linked list of
  \<^verbatim>\<open>adv_button_t\<close> structs (\<^verbatim>\<open>buttons\<close>, newest first) and one global \<^verbatim>\<open>used_gpio\<close>;
  every function of the file is translated below, under its own name, as a function on
  an explicit machine state.

  \<^item> The linked list is a HOL list, head first; a pointer into it is the position of
    the struct in the list (\<^verbatim>\<open>NULL\<close> is \<open>None\<close>).
  \<^item> A \<^verbatim>\<open>button_callback_fn\<close> is a value of \<open>fn_ptr\<close>; calling one appends the
    pair (function, argument) to the machine's list of \<open>calls\<close>. Handlers are opaque:
    they are assumed not to call back into this library.
  \<^item> What the platform provides (\<^verbatim>\<open>gpio_read\<close>, the tick counter, the tick period
    \<^verbatim>\<open>portTICK_PERIOD_MS\<close>, the result of \<^verbatim>\<open>malloc\<close>) is a parameter of the function
    that uses it. The platform state the file writes (the two FRC timers, the GPIO
    configuration, the per-button software timers) is part of the machine.
  \<^item> A dereference of \<^verbatim>\<open>NULL\<close>, a call through a \<^verbatim>\<open>NULL\<close> function pointer and a
    division by zero stop the run with a value of type \<open>stop\<close>; a loop that never ends is the value \<open>None\<close>
    of a \<^theory_text>\<open>partial_function\<close>, reported as \<open>Hangs\<close>.
\<close>

type_synonym u8 = "8 word"
type_synonym u32 = "32 word"

subsection \<open>Constants\<close>

definition DEBOUNCE_FRECUENCY :: u32 where "DEBOUNCE_FRECUENCY = 50"
definition DOUBLEPRESS_TIME :: u32 where "DOUBLEPRESS_TIME = 400"
definition LONGPRESS_TIME :: u32 where "LONGPRESS_TIME = 450"
definition VERYLONGPRESS_TIME :: u32 where "VERYLONGPRESS_TIME = 1200"
definition HOLDPRESS_TIME :: u32 where "HOLDPRESS_TIME = 10000"

subsection \<open>Data\<close>

text \<open>
  A \<^verbatim>\<open>button_callback_fn\<close>: the null pointer, the file's own \<^verbatim>\<open>no_function_callback\<close>,
  or a handler of the application (named by a number).
\<close>

datatype fn_ptr = NULL | No_function_callback | Handler nat

text \<open>The two functions the file installs in an \<^verbatim>\<open>ETSTimer\<close>.\<close>

datatype timer_fn = Adv_button_hold_callback | Adv_button_single_callback

text \<open>
  An \<^verbatim>\<open>ETSTimer\<close>, as far as the file drives it: armed for a number of milliseconds
  (one shot) or disarmed, and the function set by \<^verbatim>\<open>sdk_os_timer_setfn\<close> (its argument
  is always the button that owns the timer).
\<close>

record ets_timer =
  armed :: "u32 option"
  timer_func :: "timer_fn option"

record adv_button =
  gpio :: u8
  singlepress_callback_fn :: fn_ptr
  doublepress_callback_fn :: fn_ptr
  longpress_callback_fn :: fn_ptr
  verylongpress_callback_fn :: fn_ptr
  holdpress_callback_fn :: fn_ptr
  press_count :: u8
  press_timer :: ets_timer
  hold_timer :: ets_timer
  last_event_time :: u32

text \<open>One of the hardware timers FRC1 and FRC2.\<close>

record frc_timer =
  frc_run :: bool
  frc_interrupts :: bool
  frc_frequency :: u32
  frc_isr_attached :: bool

text \<open>
  The machine: the two globals of the file, the structs that \<^verbatim>\<open>adv_button_destroy\<close>
  took out of the list (the file never frees them), the platform state the file
  writes, and the calls made through callback pointers, oldest first.
\<close>

record machine =
  buttons :: "adv_button list"
  used_gpio :: u8
  unlinked :: "adv_button list"
  frc1 :: frc_timer
  frc2 :: frc_timer
  gpio_input :: "u8 set"
  gpio_pullup :: "u8 set"
  gpio_interrupt :: "u8 set"
  calls :: "(fn_ptr \<times> u8) list"

datatype stop = Null_pointer | Bad_pointer | Division_by_zero | Hangs

subsection \<open>Platform primitives\<close>

definition sdk_os_timer_arm :: "u32 \<Rightarrow> ets_timer \<Rightarrow> ets_timer" where
  "sdk_os_timer_arm ms t = t\<lparr>armed := Some ms\<rparr>"

definition sdk_os_timer_disarm :: "ets_timer \<Rightarrow> ets_timer" where
  "sdk_os_timer_disarm t = t\<lparr>armed := None\<rparr>"

definition sdk_os_timer_setfn :: "timer_fn \<Rightarrow> ets_timer \<Rightarrow> ets_timer" where
  "sdk_os_timer_setfn f t = t\<lparr>timer_func := Some f\<rparr>"

text \<open>\<^verbatim>\<open>memset(button, 0, sizeof(*button))\<close>.\<close>

definition zero_timer :: ets_timer where
  "zero_timer = \<lparr>armed = None, timer_func = None\<rparr>"

definition zero_button :: adv_button where
  "zero_button =
     \<lparr>gpio = 0,
      singlepress_callback_fn = NULL,
      doublepress_callback_fn = NULL,
      longpress_callback_fn = NULL,
      verylongpress_callback_fn = NULL,
      holdpress_callback_fn = NULL,
      press_count = 0,
      press_timer = zero_timer,
      hold_timer = zero_timer,
      last_event_time = 0\<rparr>"

text \<open>A write through a button pointer \<open>i\<close>: \<^verbatim>\<open>button->field = ...\<close>.\<close>

definition upd_button :: "nat \<Rightarrow> (adv_button \<Rightarrow> adv_button) \<Rightarrow> machine \<Rightarrow> machine" where
  "upd_button i f m = m\<lparr>buttons := (buttons m)[i := f (buttons m ! i)]\<rparr>"

text \<open>
  A call through a callback pointer. \<^verbatim>\<open>no_function_callback\<close> only prints a line, so
  its call is recorded like any other.
\<close>

definition call_fn :: "fn_ptr \<Rightarrow> u8 \<Rightarrow> machine \<Rightarrow> stop + machine" where
  "call_fn f g m =
     (if f = NULL then Inl Null_pointer else Inr (m\<lparr>calls := calls m @ [(f, g)]\<rparr>))"

subsection \<open>The functions of the file\<close>

text \<open>
  \<^verbatim>\<open>button_find_by_gpio\<close>: the first struct of the list whose \<^verbatim>\<open>gpio\<close> is the one
  asked for, as its position; \<open>None\<close> is \<^verbatim>\<open>NULL\<close>.
\<close>

fun button_find_by_gpio :: "adv_button list \<Rightarrow> u8 \<Rightarrow> nat option" where
  "button_find_by_gpio [] g = None"
| "button_find_by_gpio (b # bs) g =
     (if gpio b \<noteq> g then map_option Suc (button_find_by_gpio bs g) else Some 0)"

text \<open>
  \<^verbatim>\<open>push_down_timer_callback\<close>, the FRC1 interrupt. \<open>gpio_read\<close> gives the level of each
  pin at the time of the call (\<open>True\<close> is 1) and \<open>now\<close> is what
  \<^verbatim>\<open>xTaskGetTickCountFromISR()\<close> returns.
\<close>

definition push_down_timer_callback :: "(u8 \<Rightarrow> bool) \<Rightarrow> u32 \<Rightarrow> machine \<Rightarrow> stop + machine" where
  "push_down_timer_callback gpio_read now m0 =
     (let m = m0\<lparr>frc1 := (frc1 m0)\<lparr>frc_run := False, frc_interrupts := False\<rparr>\<rparr> in
      if \<not> gpio_read (used_gpio m) then
        (case button_find_by_gpio (buttons m) (used_gpio m) of
           None \<Rightarrow> Inl Null_pointer
         | Some i \<Rightarrow>
             Inr (upd_button i (\<lambda>b. b\<lparr>last_event_time := now\<rparr>)
                   (upd_button i (\<lambda>b. b\<lparr>hold_timer := sdk_os_timer_arm HOLDPRESS_TIME (hold_timer b)\<rparr>) m)))
      else Inr m)"

text \<open>
  \<^verbatim>\<open>push_up_timer_callback\<close>, the FRC2 interrupt. \<open>tick_period\<close> is the platform's
  \<^verbatim>\<open>portTICK_PERIOD_MS\<close>; the subtraction and the division are those of \<^verbatim>\<open>uint32_t\<close>.
  The first threshold, \<^verbatim>\<open>VERYLONGPRESS_TIME / portTICK_PERIOD_MS\<close>, is computed once the
  release is confirmed and the hold timer disarmed; with a tick period of 0 that
  division has no value in C, and the model stops there.
\<close>

definition push_up_timer_callback ::
    "u32 \<Rightarrow> (u8 \<Rightarrow> bool) \<Rightarrow> u32 \<Rightarrow> machine \<Rightarrow> stop + machine" where
  "push_up_timer_callback tick_period gpio_read now m0 =
     (let m = m0\<lparr>frc2 := (frc2 m0)\<lparr>frc_run := False, frc_interrupts := False\<rparr>\<rparr> in
      if gpio_read (used_gpio m) then
        (case button_find_by_gpio (buttons m) (used_gpio m) of
           None \<Rightarrow> Inl Null_pointer
         | Some i \<Rightarrow>
             let m = upd_button i (\<lambda>b. b\<lparr>hold_timer := sdk_os_timer_disarm (hold_timer b)\<rparr>) m;
                 button = buttons m ! i
             in
             if tick_period = 0 then Inl Division_by_zero
             else if now - last_event_time button > VERYLONGPRESS_TIME div tick_period then
               let m = upd_button i (\<lambda>b. b\<lparr>press_count := 0\<rparr>) m in
               if verylongpress_callback_fn button \<noteq> NULL then
                 call_fn (verylongpress_callback_fn button) (used_gpio m) m
               else if longpress_callback_fn button \<noteq> NULL then
                 call_fn (longpress_callback_fn button) (used_gpio m) m
               else
                 call_fn (singlepress_callback_fn button) (used_gpio m) m
             else if now - last_event_time button > LONGPRESS_TIME div tick_period then
               let m = upd_button i (\<lambda>b. b\<lparr>press_count := 0\<rparr>) m in
               if longpress_callback_fn button \<noteq> NULL then
                 call_fn (longpress_callback_fn button) (used_gpio m) m
               else
                 call_fn (singlepress_callback_fn button) (used_gpio m) m
             else if doublepress_callback_fn button \<noteq> NULL then
               let m = upd_button i (\<lambda>b. b\<lparr>press_count := press_count b + 1\<rparr>) m in
               if press_count (buttons m ! i) > 1 then
                 let m = upd_button i (\<lambda>b. b\<lparr>press_timer := sdk_os_timer_disarm (press_timer b)\<rparr>) m;
                     m = upd_button i (\<lambda>b. b\<lparr>press_count := 0\<rparr>) m
                 in call_fn (doublepress_callback_fn button) (used_gpio m) m
               else
                 Inr (upd_button i
                       (\<lambda>b. b\<lparr>press_timer := sdk_os_timer_arm DOUBLEPRESS_TIME (press_timer b)\<rparr>) m)
             else
               call_fn (singlepress_callback_fn button) (used_gpio m) m)
      else Inr m)"

text \<open>\<^verbatim>\<open>adv_button_intr_callback\<close>, the edge interrupt of a pin.\<close>

definition adv_button_intr_callback :: "(u8 \<Rightarrow> bool) \<Rightarrow> u8 \<Rightarrow> machine \<Rightarrow> machine" where
  "adv_button_intr_callback gpio_read g m0 =
     (case button_find_by_gpio (buttons m0) g of
        None \<Rightarrow> m0
      | Some _ \<Rightarrow>
          let m = m0\<lparr>used_gpio := g\<rparr> in
          if gpio_read (used_gpio m) then
            m\<lparr>frc2 := (frc2 m)\<lparr>frc_frequency := DEBOUNCE_FRECUENCY,
                                 frc_interrupts := True, frc_run := True\<rparr>\<rparr>
          else
            m\<lparr>frc1 := (frc1 m)\<lparr>frc_interrupts := True, frc_run := True\<rparr>\<rparr>)"

text \<open>
  \<^verbatim>\<open>adv_button_single_callback\<close>, the function of the press timer. Its argument is the
  address of the button; \<open>i\<close> is the position of that button in the list at the time
  of the call. A position outside the list names no struct of the model.
\<close>

definition adv_button_single_callback :: "nat \<Rightarrow> machine \<Rightarrow> stop + machine" where
  "adv_button_single_callback i m0 =
     (if i < length (buttons m0) then
        let m = upd_button i (\<lambda>b. b\<lparr>press_count := 0\<rparr>) m0;
            button = buttons m ! i
        in call_fn (singlepress_callback_fn button) (gpio button) m
      else Inl Bad_pointer)"

text \<open>\<^verbatim>\<open>adv_button_hold_callback\<close>, the function of the hold timer.\<close>

definition adv_button_hold_callback :: "(u8 \<Rightarrow> bool) \<Rightarrow> nat \<Rightarrow> machine \<Rightarrow> stop + machine" where
  "adv_button_hold_callback gpio_read i m0 =
     (if i < length (buttons m0) then
        if \<not> gpio_read (gpio (buttons m0 ! i)) then
          let m = upd_button i (\<lambda>b. b\<lparr>press_count := 0\<rparr>) m0;
              button = buttons m ! i
          in
          if holdpress_callback_fn button \<noteq> NULL then
            call_fn (holdpress_callback_fn button) (gpio button) m
          else
            call_fn No_function_callback (gpio button) m
        else Inr m0
      else Inl Bad_pointer)"

text \<open>
  \<^verbatim>\<open>adv_button_create\<close>. \<open>malloc_ok\<close> says whether \<^verbatim>\<open>malloc\<close> returned a block; the
  file does not test the result, so a failed allocation is a \<^verbatim>\<open>memset\<close> through \<^verbatim>\<open>NULL\<close>.
  The result is the returned \<^verbatim>\<open>int\<close> and the new machine.
\<close>

definition adv_button_create :: "bool \<Rightarrow> u8 \<Rightarrow> machine \<Rightarrow> stop + (int \<times> machine)" where
  "adv_button_create malloc_ok g m0 =
     (case button_find_by_gpio (buttons m0) g of
        Some _ \<Rightarrow> Inr (- 1, m0)
      | None \<Rightarrow>
          if \<not> malloc_ok then Inl Null_pointer
          else
            let button = zero_button\<lparr>gpio := g\<rparr>;
                m = (if buttons m0 = [] then
                       m0\<lparr>frc1 := (frc1 m0)\<lparr>frc_interrupts := False, frc_run := False,
                                               frc_isr_attached := True,
                                               frc_frequency := DEBOUNCE_FRECUENCY\<rparr>,
                          frc2 := (frc2 m0)\<lparr>frc_interrupts := False, frc_run := False,
                                               frc_isr_attached := True\<rparr>\<rparr>
                     else m0);
                m = m\<lparr>buttons := button # buttons m\<rparr>;
                m = (if gpio button \<noteq> 0 then m\<lparr>gpio_input := insert (gpio button) (gpio_input m)\<rparr>
                     else m);
                m = m\<lparr>gpio_pullup := insert (gpio button) (gpio_pullup m)\<rparr>;
                m = m\<lparr>gpio_interrupt := insert (gpio button) (gpio_interrupt m)\<rparr>;
                m = upd_button 0 (\<lambda>b. b\<lparr>hold_timer := sdk_os_timer_disarm (hold_timer b)\<rparr>) m;
                m = upd_button 0 (\<lambda>b. b\<lparr>hold_timer :=
                                      sdk_os_timer_setfn Adv_button_hold_callback (hold_timer b)\<rparr>) m;
                m = upd_button 0 (\<lambda>b. b\<lparr>press_timer := sdk_os_timer_disarm (press_timer b)\<rparr>) m;
                m = upd_button 0 (\<lambda>b. b\<lparr>press_timer :=
                                      sdk_os_timer_setfn Adv_button_single_callback (press_timer b)\<rparr>) m;
                m = upd_button 0 (\<lambda>b. b\<lparr>singlepress_callback_fn := No_function_callback\<rparr>) m
            in Inr (0, m))"

text \<open>\<^verbatim>\<open>adv_button_register_callback_fn\<close>.\<close>

definition adv_button_register_callback_fn ::
    "u8 \<Rightarrow> fn_ptr \<Rightarrow> u8 \<Rightarrow> machine \<Rightarrow> int \<times> machine" where
  "adv_button_register_callback_fn g callback button_callback_type m =
     (case button_find_by_gpio (buttons m) g of
        None \<Rightarrow> (- 1, m)
      | Some i \<Rightarrow>
          if button_callback_type = 1 then
            (if callback \<noteq> NULL then
               (0, upd_button i (\<lambda>b. b\<lparr>singlepress_callback_fn := callback\<rparr>) m)
             else
               (0, upd_button i (\<lambda>b. b\<lparr>singlepress_callback_fn := No_function_callback\<rparr>) m))
          else if button_callback_type = 2 then
            (0, upd_button i (\<lambda>b. b\<lparr>doublepress_callback_fn := callback\<rparr>) m)
          else if button_callback_type = 3 then
            (0, upd_button i (\<lambda>b. b\<lparr>longpress_callback_fn := callback\<rparr>) m)
          else if button_callback_type = 4 then
            (0, upd_button i (\<lambda>b. b\<lparr>verylongpress_callback_fn := callback\<rparr>) m)
          else if button_callback_type = 5 then
            (0, upd_button i (\<lambda>b. b\<lparr>holdpress_callback_fn := callback\<rparr>) m)
          else (- 2, m))"

text \<open>
  The loop of \<^verbatim>\<open>adv_button_destroy\<close>:
  \<^verbatim>\<open>while (b->next) { if (b->next->gpio == gpio) { button = b->next; b->next = b->next->next; break; } }\<close>
  with \<open>b\<close> the position the pointer \<^verbatim>\<open>b\<close> holds. The body never moves \<^verbatim>\<open>b\<close>, so the
  recursive call is on the same arguments. The result is the struct taken out (if any)
  and the list after the loop; \<open>None\<close> is a loop that does not end.
\<close>

partial_function (option) destroy_loop ::
    "u8 \<Rightarrow> nat \<Rightarrow> adv_button list \<Rightarrow> (adv_button option \<times> adv_button list) option" where
  "destroy_loop g b bs =
     (if Suc b < length bs then
        (if gpio (bs ! Suc b) = g then
           Some (Some (bs ! Suc b), take (Suc b) bs @ drop (Suc (Suc b)) bs)
         else destroy_loop g b bs)
      else Some (None, bs))"

declare destroy_loop.simps [code]

text \<open>The part of \<^verbatim>\<open>adv_button_destroy\<close> after the search: \<^verbatim>\<open>if (button) { ... }\<close>.\<close>

definition destroy_found :: "adv_button option \<Rightarrow> machine \<Rightarrow> machine" where
  "destroy_found found m =
     (case found of
        None \<Rightarrow> m
      | Some button0 \<Rightarrow>
          let button = button0\<lparr>hold_timer := sdk_os_timer_disarm (hold_timer button0)\<rparr>;
              button = button\<lparr>press_timer := sdk_os_timer_disarm (press_timer button)\<rparr>;
              m = m\<lparr>unlinked := button # unlinked m\<rparr>;
              m = m\<lparr>gpio_interrupt := gpio_interrupt m - {gpio button}\<rparr>
          in if gpio button \<noteq> 0 then m\<lparr>gpio_input := gpio_input m - {gpio button}\<rparr> else m)"

text \<open>\<^verbatim>\<open>adv_button_destroy\<close>; \<open>None\<close> when the call does not return.\<close>

definition adv_button_destroy :: "u8 \<Rightarrow> machine \<Rightarrow> machine option" where
  "adv_button_destroy g m =
     (case buttons m of
        [] \<Rightarrow> Some m
      | first # rest \<Rightarrow>
          if gpio first = g then
            Some (destroy_found (Some first) (m\<lparr>buttons := rest\<rparr>))
          else
            (case destroy_loop g 0 (buttons m) of
               None \<Rightarrow> None
             | Some (found, bs) \<Rightarrow> Some (destroy_found found (m\<lparr>buttons := bs\<rparr>))))"

subsection \<open>Runs\<close>

text \<open>
  What can happen to the machine: a call of one of the three public functions, an edge
  on a pin, one of the two debounce interrupts, or one of the two software timers of
  the button at position \<open>i\<close>. Each event carries what the platform supplies to it.
  The events are not gated by the timer state, so a run admits every order the
  hardware could produce (and more).
\<close>

datatype event =
    Create u8 bool
  | Register_callback u8 fn_ptr u8
  | Destroy u8
  | Edge "u8 \<Rightarrow> bool" u8
  | Frc1_fire "u8 \<Rightarrow> bool" u32
  | Frc2_fire "u8 \<Rightarrow> bool" u32
  | Press_timer_fire nat
  | Hold_timer_fire "u8 \<Rightarrow> bool" nat

fun step :: "u32 \<Rightarrow> event \<Rightarrow> machine \<Rightarrow> stop + machine" where
  "step tp (Create g ok) m = map_sum id snd (adv_button_create ok g m)"
| "step tp (Register_callback g f k) m = Inr (snd (adv_button_register_callback_fn g f k m))"
| "step tp (Destroy g) m = (case adv_button_destroy g m of None \<Rightarrow> Inl Hangs | Some m' \<Rightarrow> Inr m')"
| "step tp (Edge rd g) m = Inr (adv_button_intr_callback rd g m)"
| "step tp (Frc1_fire rd now) m = push_down_timer_callback rd now m"
| "step tp (Frc2_fire rd now) m = push_up_timer_callback tp rd now m"
| "step tp (Press_timer_fire i) m = adv_button_single_callback i m"
| "step tp (Hold_timer_fire rd i) m = adv_button_hold_callback rd i m"

fun run :: "u32 \<Rightarrow> event list \<Rightarrow> machine \<Rightarrow> stop + machine" where
  "run tp [] m = Inr m"
| "run tp (e # es) m = (case step tp e m of Inl x \<Rightarrow> Inl x | Inr m' \<Rightarrow> run tp es m')"

text \<open>The machine at start-up: the statics of the file are zero, nothing is configured.\<close>

definition boot :: machine where
  "boot =
     \<lparr>buttons = [], used_gpio = 0, unlinked = [],
      frc1 = \<lparr>frc_run = False, frc_interrupts = False, frc_frequency = 0, frc_isr_attached = False\<rparr>,
      frc2 = \<lparr>frc_run = False, frc_interrupts = False, frc_frequency = 0, frc_isr_attached = False\<rparr>,
      gpio_input = {}, gpio_pullup = {}, gpio_interrupt = {}, calls = []\<rparr>"

text \<open>
  The machine a list of events leaves when it runs from start-up, with a tick of 10 ms;
  used to name concrete machines.
\<close>

definition state_after :: "event list \<Rightarrow> machine" where
  "state_after es = (case run 10 es boot of Inr m \<Rightarrow> m | Inl _ \<Rightarrow> boot)"

text \<open>Two readings of the pins: every pin released (1), every pin pressed (0).\<close>

definition pins_high :: "u8 \<Rightarrow> bool" where
  "pins_high g = True"

definition pins_low :: "u8 \<Rightarrow> bool" where
  "pins_low g = False"

text \<open>
  A concrete machine: pin 4 created, handlers 1 to 5 bound to its five slots, a press
  confirmed at tick 1000, and the edge of the release just seen.
\<close>

definition held_since_1000 :: machine where
  "held_since_1000 = state_after
     [Create 4 True,
      Register_callback 4 (Handler 1) 1, Register_callback 4 (Handler 2) 2,
      Register_callback 4 (Handler 3) 3, Register_callback 4 (Handler 4) 4,
      Register_callback 4 (Handler 5) 5,
      Edge pins_low 4, Frc1_fire pins_low 1000, Edge pins_high 4]"

text \<open>A second one: pin 4 created, with a single-press and a double-press handler.\<close>

definition single_and_double :: machine where
  "single_and_double = state_after
     [Create 4 True, Register_callback 4 (Handler 1) 1, Register_callback 4 (Handler 2) 2]"

subsection \<open>Properties of a machine\<close>

text \<open>Every button of the list has a single-press handler.\<close>

definition single_bound :: "machine \<Rightarrow> bool" where
  "single_bound m \<longleftrightarrow> (\<forall>b \<in> set (buttons m). singlepress_callback_fn b \<noteq> NULL)"

text \<open>Every button of the list has a press count of 0 or 1.\<close>

definition count_small :: "machine \<Rightarrow> bool" where
  "count_small m \<longleftrightarrow> (\<forall>b \<in> set (buttons m). press_count b = 0 \<or> press_count b = 1)"

text \<open>No two buttons of the list are on the same pin.\<close>

definition pins_distinct :: "machine \<Rightarrow> bool" where
  "pins_distinct m \<longleftrightarrow> distinct (map gpio (buttons m))"

text \<open>
  What an interrupt or a timer callback may do to a button: the pin and the five slots
  stay, and the press count stays, becomes 0, or is incremented to a value that is not
  above 1. (The timers and the time stamp are free.)
\<close>

definition touched :: "adv_button \<Rightarrow> adv_button \<Rightarrow> bool" where
  "touched b b' \<longleftrightarrow>
     gpio b' = gpio b \<and>
     singlepress_callback_fn b' = singlepress_callback_fn b \<and>
     doublepress_callback_fn b' = doublepress_callback_fn b \<and>
     longpress_callback_fn b' = longpress_callback_fn b \<and>
     verylongpress_callback_fn b' = verylongpress_callback_fn b \<and>
     holdpress_callback_fn b' = holdpress_callback_fn b \<and>
     (press_count b' = press_count b \<or> press_count b' = 0 \<or>
      press_count b' = press_count b + 1 \<and> \<not> 1 < press_count b')"

definition touched_all :: "adv_button list \<Rightarrow> adv_button list \<Rightarrow> bool" where
  "touched_all bs bs' \<longleftrightarrow>
     length bs' = length bs \<and> (\<forall>j < length bs. touched (bs ! j) (bs' ! j))"

section \<open>Basic facts\<close>

subsection \<open>The loop of \<^verbatim>\<open>adv_button_destroy\<close>\<close>

text \<open>
  The loop returns only when the successor of \<open>b\<close> is missing or is the button looked
  for: in every other state its body changes nothing, and it runs again.
\<close>

lemma destroy_loop_Some_D:
  assumes "destroy_loop g b bs = Some r"
  shows "\<not> (Suc b < length bs \<and> gpio (bs ! Suc b) \<noteq> g)"
  by (rule destroy_loop.raw_induct
        [where P = "\<lambda>g b bs r. \<not> (Suc b < length bs \<and> gpio (bs ! Suc b) \<noteq> g)", OF _ assms])
     (auto split: if_splits)

lemma destroy_loop_stuck:
  assumes "Suc b < length bs" "gpio (bs ! Suc b) \<noteq> g"
  shows "destroy_loop g b bs = None"
  using assms destroy_loop_Some_D [of g b bs] by (cases "destroy_loop g b bs") auto

lemma destroy_loop_eq:
  "destroy_loop g b bs =
     (if Suc b < length bs then
        (if gpio (bs ! Suc b) = g then
           Some (Some (bs ! Suc b), take (Suc b) bs @ drop (Suc (Suc b)) bs)
         else None)
      else Some (None, bs))"
  using destroy_loop_stuck [of b bs g] by (subst destroy_loop.simps) simp

subsection \<open>Lookup\<close>

lemma find_Some_D:
  "button_find_by_gpio bs g = Some i \<Longrightarrow> i < length bs \<and> gpio (bs ! i) = g"
  by (induction bs arbitrary: i) (auto split: if_splits)

lemma find_None_iff:
  "button_find_by_gpio bs g = None \<longleftrightarrow> g \<notin> gpio ` set bs"
  by (induction bs) auto

text \<open>The lookup reads the \<^verbatim>\<open>gpio\<close> fields only.\<close>

lemma find_same_gpios:
  "map gpio bs' = map gpio bs \<Longrightarrow> button_find_by_gpio bs' g = button_find_by_gpio bs g"
proof (induction bs arbitrary: bs')
  case Nil
  then show ?case by simp
next
  case (Cons b bs)
  then obtain c cs where bs': "bs' = c # cs" by (cases bs') auto
  with Cons.prems have "gpio c = gpio b" "map gpio cs = map gpio bs" by simp_all
  with Cons.IH [of cs] bs' show ?case by simp
qed

lemma find_list_update:
  assumes "i < length bs" "gpio b' = gpio (bs ! i)"
  shows "button_find_by_gpio (bs[i := b']) g = button_find_by_gpio bs g"
proof (rule find_same_gpios)
  have "(map gpio bs)[i := gpio (bs ! i)] = map gpio bs"
    using assms(1) by (simp add: list_update_same_conv)
  then show "map gpio (bs[i := b']) = map gpio bs"
    by (simp add: map_update assms(2))
qed

subsection \<open>Thresholds and counters\<close>

text \<open>The two thresholds, in ticks, are ordered whatever the tick period.\<close>

lemma thresholds_ordered: "LONGPRESS_TIME div tp \<le> VERYLONGPRESS_TIME div tp"
  by (simp add: word_le_nat_alt unat_div LONGPRESS_TIME_def VERYLONGPRESS_TIME_def div_le_mono)

lemma short_not_very_long:
  assumes "(e :: u32) \<le> LONGPRESS_TIME div tp"
  shows "\<not> VERYLONGPRESS_TIME div tp < e" "\<not> LONGPRESS_TIME div tp < e"
  using assms thresholds_ordered [of tp] by auto

text \<open>
  With a tick period of 0 a confirmed release stops at the first threshold, before any
  handler is called.
\<close>

lemma push_up_zero_tick:
  assumes "gpio_read (used_gpio m)"
    and "button_find_by_gpio (buttons m) (used_gpio m) = Some i"
  shows "push_up_timer_callback 0 gpio_read now m = Inl Division_by_zero"
  using assms by (simp add: push_up_timer_callback_def Let_def)

text \<open>An 8-bit count that is not above 1 is 0 or 1.\<close>

lemma word_not_above_one:
  fixes x :: u8
  assumes "\<not> 1 < x"
  shows "x = 0 \<or> x = 1"
proof -
  from assms have "unat x \<le> 1" by (simp add: word_less_nat_alt not_less)
  then have "unat x = 0 \<or> unat x = unat (1 :: u8)" by auto
  then show ?thesis by (simp only: word_unat_eq_iff [symmetric] unat_0_iff)
qed

subsection \<open>What the callbacks leave alone\<close>

lemma touched_refl: "touched b b"
  by (simp add: touched_def)

lemma touched_all_refl: "touched_all bs bs"
  by (simp add: touched_all_def touched_refl)

text \<open>One write through a button pointer, seen button by button.\<close>

lemma touched_all_update:
  assumes "i < length bs \<Longrightarrow> touched (bs ! i) x"
  shows "touched_all bs (bs[i := x])"
proof -
  have "touched (bs ! j) (bs[i := x] ! j)" if "j < length bs" for j
    using that assms by (cases "i = j") (simp_all add: touched_refl)
  then show ?thesis by (simp add: touched_all_def)
qed

lemma push_down_touched:
  assumes "push_down_timer_callback rd now m = Inr m'"
  shows "touched_all (buttons m) (buttons m')"
  using assms
  by (auto simp: push_down_timer_callback_def Let_def upd_button_def touched_all_refl
        touched_def sdk_os_timer_arm_def
      split: option.splits if_splits intro!: touched_all_update)

lemma push_up_touched:
  assumes "push_up_timer_callback tp rd now m = Inr m'"
  shows "touched_all (buttons m) (buttons m')"
  using assms
  by (auto simp: push_up_timer_callback_def Let_def upd_button_def call_fn_def touched_all_refl
        touched_def sdk_os_timer_arm_def sdk_os_timer_disarm_def
      split: option.splits if_splits intro!: touched_all_update)

lemma intr_touched:
  "touched_all (buttons m) (buttons (adv_button_intr_callback rd g m))"
  by (auto simp: adv_button_intr_callback_def Let_def touched_all_refl split: option.splits)

lemma single_callback_touched:
  assumes "adv_button_single_callback i m = Inr m'"
  shows "touched_all (buttons m) (buttons m')"
  using assms
  by (auto simp: adv_button_single_callback_def Let_def upd_button_def call_fn_def
        touched_def split: if_splits intro!: touched_all_update)

lemma hold_callback_touched:
  assumes "adv_button_hold_callback rd i m = Inr m'"
  shows "touched_all (buttons m) (buttons m')"
  using assms
  by (auto simp: adv_button_hold_callback_def Let_def upd_button_def call_fn_def
        touched_def touched_all_refl split: if_splits intro!: touched_all_update)

lemma touched_all_single:
  assumes "touched_all bs bs'" "\<forall>b \<in> set bs. singlepress_callback_fn b \<noteq> NULL"
  shows "\<forall>b \<in> set bs'. singlepress_callback_fn b \<noteq> NULL"
  using assms by (auto simp: touched_all_def touched_def all_set_conv_all_nth)

lemma touched_all_count:
  assumes "touched_all bs bs'" "\<forall>b \<in> set bs. press_count b = 0 \<or> press_count b = 1"
  shows "\<forall>b \<in> set bs'. press_count b = 0 \<or> press_count b = 1"
proof -
  have "press_count (bs' ! j) = 0 \<or> press_count (bs' ! j) = 1" if j: "j < length bs" for j
  proof -
    from assms(1) j have t: "touched (bs ! j) (bs' ! j)" by (simp add: touched_all_def)
    from assms(2) j have "press_count (bs ! j) = 0 \<or> press_count (bs ! j) = 1" by simp
    with t word_not_above_one [of "press_count (bs' ! j)"] show ?thesis
      by (auto simp: touched_def)
  qed
  with assms(1) show ?thesis by (simp add: touched_all_def all_set_conv_all_nth)
qed

subsection \<open>What the public functions do to the list\<close>

lemma create_effect:
  assumes "adv_button_create ok g m = Inr (r, m')"
  shows "buttons m' = buttons m \<or>
         (\<exists>b. buttons m' = b # buttons m \<and> gpio b = g \<and>
              singlepress_callback_fn b = No_function_callback \<and> press_count b = 0)"
  using assms
  by (auto simp: adv_button_create_def Let_def upd_button_def zero_button_def
      split: option.splits if_splits dest!: find_Some_D)

lemma register_effect:
  assumes "adv_button_register_callback_fn g f k m = (r, m')"
  shows "length (buttons m') = length (buttons m) \<and>
         (\<forall>j < length (buttons m).
            gpio (buttons m' ! j) = gpio (buttons m ! j) \<and>
            press_count (buttons m' ! j) = press_count (buttons m ! j) \<and>
            (singlepress_callback_fn (buttons m ! j) \<noteq> NULL \<longrightarrow>
             singlepress_callback_fn (buttons m' ! j) \<noteq> NULL))"
  using assms
  by (auto simp: adv_button_register_callback_fn_def upd_button_def nth_list_update
      split: option.splits if_splits dest!: find_Some_D)

lemma destroy_buttons_subset:
  assumes "adv_button_destroy g m = Some m'"
  shows "set (buttons m') \<subseteq> set (buttons m)"
proof (cases "buttons m")
  case Nil
  with assms show ?thesis by (simp add: adv_button_destroy_def)
next
  case (Cons first rest)
  have sub: "set (take (Suc 0) bs @ drop (Suc (Suc 0)) bs) \<subseteq> set bs" for bs :: "adv_button list"
    using set_take_subset [of "Suc 0" bs] set_drop_subset [of "Suc (Suc 0)" bs] by auto
  have found: "buttons (destroy_found r x) = buttons x" for r x
    by (simp add: destroy_found_def Let_def split: option.splits)
  from assms Cons sub [of "first # rest"] show ?thesis
    by (auto simp: adv_button_destroy_def destroy_loop_eq found split: if_splits)
qed

subsection \<open>Invariants of a step and of a run\<close>

lemma step_single_bound:
  assumes "single_bound m" "step tp e m = Inr m'"
  shows "single_bound m'"
proof (cases e)
  case (Create g ok)
  with assms(2) obtain r where "adv_button_create ok g m = Inr (r, m')"
    by (cases "adv_button_create ok g m") auto
  from create_effect [OF this] assms(1) show ?thesis
    by (auto simp: single_bound_def)
next
  case (Register_callback g f k)
  with assms(2) have "adv_button_register_callback_fn g f k m =
      (fst (adv_button_register_callback_fn g f k m), m')" by auto
  from register_effect [OF this] assms(1) show ?thesis
    by (auto simp: single_bound_def all_set_conv_all_nth)
next
  case (Destroy g)
  with assms(2) have "adv_button_destroy g m = Some m'" by (auto split: option.splits)
  from destroy_buttons_subset [OF this] assms(1) show ?thesis
    by (auto simp: single_bound_def)
next
  case (Edge rd g)
  with assms intr_touched [of m rd g] show ?thesis
    by (auto simp: single_bound_def dest: touched_all_single)
next
  case (Frc1_fire rd now)
  with assms push_down_touched [of rd now m m'] show ?thesis
    by (auto simp: single_bound_def dest: touched_all_single)
next
  case (Frc2_fire rd now)
  with assms push_up_touched [of tp rd now m m'] show ?thesis
    by (auto simp: single_bound_def dest: touched_all_single)
next
  case (Press_timer_fire i)
  with assms single_callback_touched [of i m m'] show ?thesis
    by (auto simp: single_bound_def dest: touched_all_single)
next
  case (Hold_timer_fire rd i)
  with assms hold_callback_touched [of rd i m m'] show ?thesis
    by (auto simp: single_bound_def dest: touched_all_single)
qed

lemma step_count_small:
  assumes "count_small m" "step tp e m = Inr m'"
  shows "count_small m'"
proof (cases e)
  case (Create g ok)
  with assms(2) obtain r where "adv_button_create ok g m = Inr (r, m')"
    by (cases "adv_button_create ok g m") auto
  from create_effect [OF this] assms(1) show ?thesis
    by (auto simp: count_small_def)
next
  case (Register_callback g f k)
  with assms(2) have "adv_button_register_callback_fn g f k m =
      (fst (adv_button_register_callback_fn g f k m), m')" by auto
  from register_effect [OF this] assms(1) show ?thesis
    by (auto simp: count_small_def all_set_conv_all_nth)
next
  case (Destroy g)
  with assms(2) have "adv_button_destroy g m = Some m'" by (auto split: option.splits)
  from destroy_buttons_subset [OF this] assms(1) show ?thesis
    by (auto simp: count_small_def)
next
  case (Edge rd g)
  with assms intr_touched [of m rd g] show ?thesis
    by (auto simp: count_small_def dest: touched_all_count)
next
  case (Frc1_fire rd now)
  with assms push_down_touched [of rd now m m'] show ?thesis
    by (auto simp: count_small_def dest: touched_all_count)
next
  case (Frc2_fire rd now)
  with assms push_up_touched [of tp rd now m m'] show ?thesis
    by (auto simp: count_small_def dest: touched_all_count)
next
  case (Press_timer_fire i)
  with assms single_callback_touched [of i m m'] show ?thesis
    by (auto simp: count_small_def dest: touched_all_count)
next
  case (Hold_timer_fire rd i)
  with assms hold_callback_touched [of rd i m m'] show ?thesis
    by (auto simp: count_small_def dest: touched_all_count)
qed

lemma run_single_bound:
  "single_bound m \<Longrightarrow> run tp es m = Inr m' \<Longrightarrow> single_bound m'"
proof (induction es arbitrary: m)
  case Nil
  then show ?case by simp
next
  case (Cons e es)
  then show ?case
    by (cases "step tp e m") (auto dest: step_single_bound)
qed

lemma run_count_small:
  "count_small m \<Longrightarrow> run tp es m = Inr m' \<Longrightarrow> count_small m'"
proof (induction es arbitrary: m)
  case Nil
  then show ?case by simp
next
  case (Cons e es)
  then show ?case
    by (cases "step tp e m") (auto dest: step_count_small)
qed

subsection \<open>Pins stay distinct\<close>

lemma touched_all_gpios:
  assumes "touched_all bs bs'"
  shows "map gpio bs' = map gpio bs"
  using assms by (auto simp: touched_all_def touched_def list_eq_iff_nth_eq)

lemma step_pins_distinct:
  assumes "pins_distinct m" "step tp e m = Inr m'"
  shows "pins_distinct m'"
proof (cases e)
  case (Create g ok)
  with assms show ?thesis
    by (auto simp: pins_distinct_def adv_button_create_def Let_def upd_button_def
          find_None_iff split: option.splits if_splits)
next
  case (Register_callback g f k)
  with assms(2) have "adv_button_register_callback_fn g f k m =
      (fst (adv_button_register_callback_fn g f k m), m')" by auto
  from register_effect [OF this] have "map gpio (buttons m') = map gpio (buttons m)"
    by (simp add: list_eq_iff_nth_eq)
  with assms(1) show ?thesis by (simp add: pins_distinct_def)
next
  case (Destroy g)
  have found: "buttons (destroy_found r x) = buttons x" for r x
    by (simp add: destroy_found_def Let_def split: option.splits)
  from Destroy assms show ?thesis
    by (cases "buttons m"; cases "tl (buttons m)")
      (auto simp: pins_distinct_def adv_button_destroy_def destroy_loop_eq found
         split: option.splits if_splits)
next
  case (Edge rd g)
  with assms touched_all_gpios [OF intr_touched [of m rd g]] show ?thesis
    by (auto simp: pins_distinct_def)
next
  case (Frc1_fire rd now)
  with assms touched_all_gpios [OF push_down_touched [of rd now m m']] show ?thesis
    by (auto simp: pins_distinct_def)
next
  case (Frc2_fire rd now)
  with assms touched_all_gpios [OF push_up_touched [of tp rd now m m']] show ?thesis
    by (auto simp: pins_distinct_def)
next
  case (Press_timer_fire i)
  with assms touched_all_gpios [OF single_callback_touched [of i m m']] show ?thesis
    by (auto simp: pins_distinct_def)
next
  case (Hold_timer_fire rd i)
  with assms touched_all_gpios [OF hold_callback_touched [of rd i m m']] show ?thesis
    by (auto simp: pins_distinct_def)
qed

lemma run_pins_distinct:
  "pins_distinct m \<Longrightarrow> run tp es m = Inr m' \<Longrightarrow> pins_distinct m'"
proof (induction es arbitrary: m)
  case Nil
  then show ?case by simp
next
  case (Cons e es)
  then show ?case
    by (cases "step tp e m") (auto dest: step_pins_distinct)
qed

subsection \<open>When \<^verbatim>\<open>adv_button_destroy\<close> returns\<close>

text \<open>
  The call returns exactly when the list has fewer than two buttons or one of its
  first two buttons is on the pin. For a registered pin in one of these two places it
  does what is expected of it: the pin is no longer found, the struct taken out has
  both timers disarmed, the edge interrupt of the pin is detached, its input is
  disabled unless it is pin 0, and a later edge on the pin changes nothing.
\<close>

lemma destroy_returns_iff:
  "adv_button_destroy g m \<noteq> None \<longleftrightarrow>
     (case buttons m of
        [] \<Rightarrow> True
      | [b] \<Rightarrow> True
      | b # c # _ \<Rightarrow> gpio b = g \<or> gpio c = g)"
  by (auto simp: adv_button_destroy_def destroy_loop_eq split: list.splits)

lemma intr_unregistered:
  "button_find_by_gpio (buttons m) g = None \<Longrightarrow> adv_button_intr_callback rd g m = m"
  by (simp add: adv_button_intr_callback_def)

lemma destroy_found_Some:
  "\<exists>b'. gpio b' = gpio b \<and> armed (hold_timer b') = None \<and> armed (press_timer b') = None \<and>
     buttons (destroy_found (Some b) x) = buttons x \<and>
     unlinked (destroy_found (Some b) x) = b' # unlinked x \<and>
     gpio b \<notin> gpio_interrupt (destroy_found (Some b) x) \<and>
     gpio_input (destroy_found (Some b) x) =
       (if gpio b \<noteq> 0 then gpio_input x - {gpio b} else gpio_input x)"
  by (simp add: destroy_found_def Let_def sdk_os_timer_disarm_def)

lemma destroy_front:
  assumes reg: "button_find_by_gpio (buttons m) p = Some i"
    and front: "i \<le> 1"
    and dist: "distinct (map gpio (buttons m))"
  shows "\<exists>m' b. adv_button_destroy p m = Some m' \<and>
           button_find_by_gpio (buttons m') p = None \<and>
           unlinked m' = b # unlinked m \<and> gpio b = p \<and>
           armed (hold_timer b) = None \<and> armed (press_timer b) = None \<and>
           p \<notin> gpio_interrupt m' \<and>
           gpio_input m' = (if p \<noteq> 0 then gpio_input m - {p} else gpio_input m) \<and>
           adv_button_intr_callback rd p m' = m'"
proof -
  have "\<exists>b bs. gpio b = p \<and> button_find_by_gpio bs p = None \<and>
          adv_button_destroy p m = Some (destroy_found (Some b) (m\<lparr>buttons := bs\<rparr>))"
  proof (cases "buttons m")
    case Nil
    with reg show ?thesis by simp
  next
    case (Cons first rest)
    show ?thesis
    proof (cases "gpio first = p")
      case True
      with Cons dist have "button_find_by_gpio rest p = None"
        by (auto simp: find_None_iff)
      with True Cons show ?thesis
        by (intro exI [of _ first] exI [of _ rest]) (simp add: adv_button_destroy_def)
    next
      case False
      with reg Cons front obtain second rest' where rest: "rest = second # rest'"
        and second: "gpio second = p"
        by (cases rest) (auto split: if_splits)
      with Cons dist have "button_find_by_gpio (first # rest') p = None"
        by (auto simp: find_None_iff)
      with False Cons rest second show ?thesis
        by (intro exI [of _ second] exI [of _ "first # rest'"])
          (simp add: adv_button_destroy_def destroy_loop_eq)
    qed
  qed
  then obtain b bs where b: "gpio b = p" and bs: "button_find_by_gpio bs p = None"
    and d: "adv_button_destroy p m = Some (destroy_found (Some b) (m\<lparr>buttons := bs\<rparr>))"
    by blast
  from destroy_found_Some [of b "m\<lparr>buttons := bs\<rparr>"] obtain b' where
    "gpio b' = p" "armed (hold_timer b') = None" "armed (press_timer b') = None"
    "buttons (destroy_found (Some b) (m\<lparr>buttons := bs\<rparr>)) = bs"
    "unlinked (destroy_found (Some b) (m\<lparr>buttons := bs\<rparr>)) = b' # unlinked m"
    "p \<notin> gpio_interrupt (destroy_found (Some b) (m\<lparr>buttons := bs\<rparr>))"
    "gpio_input (destroy_found (Some b) (m\<lparr>buttons := bs\<rparr>)) =
       (if p \<noteq> 0 then gpio_input m - {p} else gpio_input m)"
    using b by auto
  with d bs intr_unregistered [of "destroy_found (Some b) (m\<lparr>buttons := bs\<rparr>)" p rd]
  show ?thesis by auto
qed

text \<open>The equations that evaluate the model on a concrete machine.\<close>

lemmas eval_defs =
  adv_button_create_def adv_button_register_callback_fn_def adv_button_destroy_def
  adv_button_intr_callback_def push_down_timer_callback_def push_up_timer_callback_def
  adv_button_single_callback_def adv_button_hold_callback_def
  destroy_found_def destroy_loop_eq call_fn_def upd_button_def
  zero_button_def zero_timer_def sdk_os_timer_arm_def sdk_os_timer_disarm_def
  sdk_os_timer_setfn_def boot_def Let_def
  DEBOUNCE_FRECUENCY_def DOUBLEPRESS_TIME_def LONGPRESS_TIME_def VERYLONGPRESS_TIME_def
  HOLDPRESS_TIME_def

lemma held_since_1000_eq:
  "held_since_1000 =
     \<lparr>buttons =
        [\<lparr>gpio = 4,
          singlepress_callback_fn = Handler 1, doublepress_callback_fn = Handler 2,
          longpress_callback_fn = Handler 3, verylongpress_callback_fn = Handler 4,
          holdpress_callback_fn = Handler 5, press_count = 0,
          press_timer = \<lparr>armed = None, timer_func = Some Adv_button_single_callback\<rparr>,
          hold_timer = \<lparr>armed = Some 10000, timer_func = Some Adv_button_hold_callback\<rparr>,
          last_event_time = 1000\<rparr>],
      used_gpio = 4, unlinked = [],
      frc1 = \<lparr>frc_run = False, frc_interrupts = False, frc_frequency = 50,
               frc_isr_attached = True\<rparr>,
      frc2 = \<lparr>frc_run = True, frc_interrupts = True, frc_frequency = 50,
               frc_isr_attached = True\<rparr>,
      gpio_input = {4}, gpio_pullup = {4}, gpio_interrupt = {4}, calls = []\<rparr>"
  by (simp add: held_since_1000_def state_after_def eval_defs pins_low_def pins_high_def)

lemma single_and_double_eq:
  "single_and_double =
     \<lparr>buttons =
        [\<lparr>gpio = 4,
          singlepress_callback_fn = Handler 1, doublepress_callback_fn = Handler 2,
          longpress_callback_fn = NULL, verylongpress_callback_fn = NULL,
          holdpress_callback_fn = NULL, press_count = 0,
          press_timer = \<lparr>armed = None, timer_func = Some Adv_button_single_callback\<rparr>,
          hold_timer = \<lparr>armed = None, timer_func = Some Adv_button_hold_callback\<rparr>,
          last_event_time = 0\<rparr>],
      used_gpio = 0, unlinked = [],
      frc1 = \<lparr>frc_run = False, frc_interrupts = False, frc_frequency = 50,
               frc_isr_attached = True\<rparr>,
      frc2 = \<lparr>frc_run = False, frc_interrupts = False, frc_frequency = 0,
               frc_isr_attached = True\<rparr>,
      gpio_input = {4}, gpio_pullup = {4}, gpio_interrupt = {4}, calls = []\<rparr>"
  by (simp add: single_and_double_def state_after_def eval_defs)

section \<open>The claims\<close>

subsection \<open>C1: \<^verbatim>\<open>adv_button_destroy\<close> on a pin that is not registered\<close>

text \<open>
  C1 says that \<^verbatim>\<open>adv_button_destroy\<close> returns for every registry and every pin, and
  changes nothing when the pin is not registered. The code does not: with pins 2 and 1
  created (the list is then 1, 2) and pin 3 not registered, the head is not pin 3, the
  loop finds that the second struct is not pin 3 either, and, since it never moves
  \<^verbatim>\<open>b\<close>, tests the same struct again for ever.
\<close>

theorem destroy_unregistered_hangs:
  "run 10 [Create 2 True, Create 1 True, Destroy 3] boot = Inl Hangs \<and>
   (case run 10 [Create 2 True, Create 1 True] boot of
      Inl _ \<Rightarrow> False
    | Inr m \<Rightarrow> map gpio (buttons m) = [1, 2] \<and> button_find_by_gpio (buttons m) 3 = None)"
  by (simp add: eval_defs)

subsection \<open>C3: \<^verbatim>\<open>adv_button_destroy\<close> on a registered pin\<close>

text \<open>
  C3 says that after \<^verbatim>\<open>adv_button_destroy\<close> of a registered pin the pin is no longer
  found, its timers are disarmed and its interrupt is detached. For a pin that is
  third or later in the list the call never returns, by the same loop: with pins 3, 2
  and 1 created (the list is 1, 2, 3), destroying pin 3 hangs on the second struct.
\<close>

theorem destroy_third_hangs:
  "run 10 [Create 3 True, Create 2 True, Create 1 True, Destroy 3] boot = Inl Hangs \<and>
   (case run 10 [Create 3 True, Create 2 True, Create 1 True] boot of
      Inl _ \<Rightarrow> False
    | Inr m \<Rightarrow> map gpio (buttons m) = [1, 2, 3] \<and> button_find_by_gpio (buttons m) 3 = Some 2)"
  by (simp add: eval_defs)

subsection \<open>C5: creating a pin twice\<close>

text \<open>
  C5: \<^verbatim>\<open>adv_button_create\<close> on a pin that is already registered returns -1
  (AlreadyExists) and leaves the machine as it was: the list, every field of every
  button and the platform state. The allocation is not even attempted.
\<close>

theorem create_existing:
  assumes "button_find_by_gpio (buttons m) p \<noteq> None"
  shows "adv_button_create malloc_ok p m = Inr (- 1, m)"
  using assms by (auto simp: adv_button_create_def)

theorem create_existing_witness:
  "button_find_by_gpio (buttons (state_after [Create 4 True])) 4 \<noteq> None \<and>
   adv_button_create True 4 (state_after [Create 4 True]) = Inr (- 1, state_after [Create 4 True])"
proof -
  have reg: "button_find_by_gpio (buttons (state_after [Create 4 True])) 4 \<noteq> None"
    by (simp add: state_after_def eval_defs)
  from reg create_existing [OF reg, of True] show ?thesis by (simp only: simp_thms)
qed

subsection \<open>C6: registering an unknown kind of gesture\<close>

text \<open>
  C6: \<^verbatim>\<open>adv_button_register_callback_fn\<close> with a kind that is none of 1 to 5, on a
  registered pin, returns -2 (InvalidKind) and leaves the machine, so all five slots of
  the button, as it was. The pin is looked up first: on a pin that is not registered
  the result is -1 (NotFound) whatever the kind. The two results differ.
\<close>

theorem register_invalid_kind:
  assumes "k \<notin> {1, 2, 3, 4, 5}"
  shows "adv_button_register_callback_fn p f k m =
           (if button_find_by_gpio (buttons m) p = None then (- 1, m) else (- 2, m)) \<and>
         (- 2 :: int) \<noteq> - 1"
  using assms by (simp add: adv_button_register_callback_fn_def split: option.splits)

theorem register_invalid_kind_witness:
  "(9 :: u8) \<notin> {1, 2, 3, 4, 5} \<and>
   adv_button_register_callback_fn 4 (Handler 7) 9 (state_after [Create 4 True]) =
     (- 2, state_after [Create 4 True]) \<and>
   adv_button_register_callback_fn 5 (Handler 7) 9 (state_after [Create 4 True]) =
     (- 1, state_after [Create 4 True])"
proof -
  have k: "(9 :: u8) \<notin> {1, 2, 3, 4, 5}" by simp
  have reg: "button_find_by_gpio (buttons (state_after [Create 4 True])) 4 \<noteq> None"
    by (simp add: state_after_def eval_defs)
  have unreg: "button_find_by_gpio (buttons (state_after [Create 4 True])) 5 = None"
    by (simp add: state_after_def eval_defs)
  show ?thesis
    using k reg unreg
      register_invalid_kind [OF k, of 4 "Handler 7" "state_after [Create 4 True]"]
      register_invalid_kind [OF k, of 5 "Handler 7" "state_after [Create 4 True]"]
    by (simp only: simp_thms if_True if_False)
qed

subsection \<open>C8: the hold timer\<close>

text \<open>
  C8: when the hold timer of a button fires, \<^verbatim>\<open>adv_button_hold_callback\<close> reads the
  pin of that button again. If it reads pressed (0), the press count of the button
  becomes 0 and one call is made, with the pin as argument: to the hold-press handler
  if one is bound, to \<^verbatim>\<open>no_function_callback\<close> otherwise. If it reads released,
  the machine is left as it was and nothing is called.
\<close>

theorem hold_timer_fire:
  assumes "i < length (buttons m)"
  shows "adv_button_hold_callback rd i m =
     (if rd (gpio (buttons m ! i)) then Inr m
      else Inr (m\<lparr>buttons := (buttons m)[i := (buttons m ! i)\<lparr>press_count := 0\<rparr>],
                 calls := calls m @
                   [(if holdpress_callback_fn (buttons m ! i) \<noteq> NULL
                     then holdpress_callback_fn (buttons m ! i) else No_function_callback,
                     gpio (buttons m ! i))]\<rparr>))"
  using assms by (simp add: adv_button_hold_callback_def upd_button_def call_fn_def Let_def)

theorem hold_timer_fire_witness:
  "(0 :: nat) < length (buttons (state_after [Create 4 True, Register_callback 4 (Handler 5) 5])) \<and>
   (case adv_button_hold_callback pins_low 0
           (state_after [Create 4 True, Register_callback 4 (Handler 5) 5]) of
      Inl _ \<Rightarrow> False
    | Inr m' \<Rightarrow> calls m' = [(Handler 5, 4)] \<and> press_count (buttons m' ! 0) = 0) \<and>
   adv_button_hold_callback pins_high 0
           (state_after [Create 4 True, Register_callback 4 (Handler 5) 5]) =
     Inr (state_after [Create 4 True, Register_callback 4 (Handler 5) 5]) \<and>
   (case adv_button_hold_callback pins_low 0 (state_after [Create 4 True]) of
      Inl _ \<Rightarrow> False
    | Inr m' \<Rightarrow> calls m' = [(No_function_callback, 4)])"
proof -
  have len: "(0 :: nat) < length (buttons (state_after [Create 4 True, Register_callback 4 (Handler 5) 5]))"
    by (simp add: state_after_def eval_defs)
  have len': "(0 :: nat) < length (buttons (state_after [Create 4 True]))"
    by (simp add: state_after_def eval_defs)
  show ?thesis
    using len
      hold_timer_fire [OF len, of pins_low] hold_timer_fire [OF len, of pins_high]
      hold_timer_fire [OF len', of pins_low]
    by (simp add: state_after_def eval_defs pins_low_def pins_high_def)
qed

subsection \<open>C2: classifying a long release\<close>




subsection \<open>C4: the double press\<close>

lemma release_short_double_step:
  assumes "tick_period \<noteq> 0"
    and "gpio_read (used_gpio m)"
    and "button_find_by_gpio (buttons m) (used_gpio m) = Some i"
    and "doublepress_callback_fn (buttons m ! i) \<noteq> NULL"
    and "now - last_event_time (buttons m ! i) \<le> LONGPRESS_TIME div tick_period"
  shows "push_up_timer_callback tick_period gpio_read now m =
     (if 1 < press_count (buttons m ! i) + 1 then
        Inr (m\<lparr>frc2 := (frc2 m)\<lparr>frc_run := False, frc_interrupts := False\<rparr>,
               buttons := (buttons m)[i := (buttons m ! i)
                 \<lparr>hold_timer := (hold_timer (buttons m ! i))\<lparr>armed := None\<rparr>,
                  press_timer := (press_timer (buttons m ! i))\<lparr>armed := None\<rparr>,
                  press_count := 0\<rparr>],
               calls := calls m @ [(doublepress_callback_fn (buttons m ! i), used_gpio m)]\<rparr>)
      else
        Inr (m\<lparr>frc2 := (frc2 m)\<lparr>frc_run := False, frc_interrupts := False\<rparr>,
               buttons := (buttons m)[i := (buttons m ! i)
                 \<lparr>hold_timer := (hold_timer (buttons m ! i))\<lparr>armed := None\<rparr>,
                  press_count := press_count (buttons m ! i) + 1,
                  press_timer := (press_timer (buttons m ! i))\<lparr>armed := Some DOUBLEPRESS_TIME\<rparr>\<rparr>]\<rparr>))"
proof -
  from find_Some_D [OF assms(3)] have i: "i < length (buttons m)" by simp
  note short = short_not_very_long [OF assms(5)]
  show ?thesis
    using assms(1-4) i short
    by (simp add: push_up_timer_callback_def upd_button_def call_fn_def Let_def
          sdk_os_timer_disarm_def sdk_os_timer_arm_def)
qed

lemma double_press_scenario:
  assumes tp: "tp \<noteq> 0"
    and lo: "\<not> lo p" and hi: "hi p"
    and reg: "button_find_by_gpio (buttons s) p = Some j"
    and dbl: "doublepress_callback_fn (buttons s ! j) \<noteq> NULL"
    and zero: "press_count (buttons s ! j) = 0"
    and short_a: "up_a - down_a \<le> LONGPRESS_TIME div tp"
    and short_b: "up_b - down_b \<le> LONGPRESS_TIME div tp"
  shows "\<exists>s'. run tp [Edge lo p, Frc1_fire lo down_a, Edge hi p, Frc2_fire hi up_a,
                       Edge lo p, Frc1_fire lo down_b, Edge hi p, Frc2_fire hi up_b] s = Inr s' \<and>
           calls s' = calls s @ [(doublepress_callback_fn (buttons s ! j), p)] \<and>
           press_count (buttons s' ! j) = 0 \<and>
           armed (press_timer (buttons s' ! j)) = None"
proof -
  from find_Some_D [OF reg] have j: "j < length (buttons s)" "gpio (buttons s ! j) = p" by simp_all
  note n1 = short_not_very_long [OF short_a]
  note n2 = short_not_very_long [OF short_b]
  show ?thesis
    using tp lo hi reg dbl zero j n1 n2
    by (simp add: adv_button_intr_callback_def push_down_timer_callback_def
          push_up_timer_callback_def upd_button_def call_fn_def Let_def
          sdk_os_timer_disarm_def sdk_os_timer_arm_def find_list_update)
qed

text \<open>
  C4: with a tick period that is not 0 (the thresholds are divisions by it), on a
  confirmed release of a button with a double-press handler, not longer than the long
  threshold (\<open>elapsed \<le> 450 div tick_period\<close>, which covers every \<open>elapsed\<close> below it),
  the press count is incremented (as a \<^verbatim>\<open>uint8_t\<close>). If it is then
  greater than 1, the press timer is disarmed, the count is reset to 0 and the
  double-press handler is called once; otherwise the press timer is armed for 400 ms
  and nothing is called. Hence, from a count of 0, two press/release pairs on a pin
  with no press-timer expiry in between make exactly one call, to the double-press
  handler, and leave the count at 0 and the press timer disarmed.
\<close>

theorem double_press:
  "(tick_period \<noteq> 0 \<and> gpio_read (used_gpio m) \<and>
    button_find_by_gpio (buttons m) (used_gpio m) = Some i \<and>
    doublepress_callback_fn (buttons m ! i) \<noteq> NULL \<and>
    now - last_event_time (buttons m ! i) \<le> LONGPRESS_TIME div tick_period \<longrightarrow>
    push_up_timer_callback tick_period gpio_read now m =
     (if 1 < press_count (buttons m ! i) + 1 then
        Inr (m\<lparr>frc2 := (frc2 m)\<lparr>frc_run := False, frc_interrupts := False\<rparr>,
               buttons := (buttons m)[i := (buttons m ! i)
                 \<lparr>hold_timer := (hold_timer (buttons m ! i))\<lparr>armed := None\<rparr>,
                  press_timer := (press_timer (buttons m ! i))\<lparr>armed := None\<rparr>,
                  press_count := 0\<rparr>],
               calls := calls m @ [(doublepress_callback_fn (buttons m ! i), used_gpio m)]\<rparr>)
      else
        Inr (m\<lparr>frc2 := (frc2 m)\<lparr>frc_run := False, frc_interrupts := False\<rparr>,
               buttons := (buttons m)[i := (buttons m ! i)
                 \<lparr>hold_timer := (hold_timer (buttons m ! i))\<lparr>armed := None\<rparr>,
                  press_count := press_count (buttons m ! i) + 1,
                  press_timer := (press_timer (buttons m ! i))\<lparr>armed := Some DOUBLEPRESS_TIME\<rparr>\<rparr>]\<rparr>))) \<and>
   (tick_period \<noteq> 0 \<and> \<not> lo p \<and> hi p \<and>
    button_find_by_gpio (buttons s) p = Some j \<and>
    doublepress_callback_fn (buttons s ! j) \<noteq> NULL \<and>
    press_count (buttons s ! j) = 0 \<and>
    up_a - down_a \<le> LONGPRESS_TIME div tick_period \<and>
    up_b - down_b \<le> LONGPRESS_TIME div tick_period \<longrightarrow>
    (\<exists>s'. run tick_period
            [Edge lo p, Frc1_fire lo down_a, Edge hi p, Frc2_fire hi up_a,
             Edge lo p, Frc1_fire lo down_b, Edge hi p, Frc2_fire hi up_b] s = Inr s' \<and>
          calls s' = calls s @ [(doublepress_callback_fn (buttons s ! j), p)] \<and>
          press_count (buttons s' ! j) = 0 \<and>
          armed (press_timer (buttons s' ! j)) = None))"
  using release_short_double_step [of tick_period gpio_read m i now]
    double_press_scenario [of tick_period lo p hi s j up_a down_a up_b down_b]
  by blast

theorem double_press_witness:
  "(10 :: u32) \<noteq> 0 \<and>
   pins_high (used_gpio held_since_1000) \<and>
   button_find_by_gpio (buttons held_since_1000) (used_gpio held_since_1000) = Some 0 \<and>
   doublepress_callback_fn (buttons held_since_1000 ! 0) \<noteq> NULL \<and>
   1020 - last_event_time (buttons held_since_1000 ! 0) \<le> LONGPRESS_TIME div 10 \<and>
   (\<exists>m'. push_up_timer_callback 10 pins_high 1020 held_since_1000 = Inr m' \<and>
      calls m' = [] \<and> press_count (buttons m' ! 0) = 1 \<and>
      armed (press_timer (buttons m' ! 0)) = Some 400) \<and>
   \<not> pins_low 4 \<and> pins_high 4 \<and>
   button_find_by_gpio (buttons single_and_double) 4
     = Some 0 \<and>
   doublepress_callback_fn (buttons single_and_double ! 0)
     \<noteq> NULL \<and>
   press_count (buttons single_and_double ! 0)
     = 0 \<and>
   (5 :: u32) - 0 \<le> LONGPRESS_TIME div 10 \<and> (20 :: u32) - 15 \<le> LONGPRESS_TIME div 10 \<and>
   (\<exists>s'. run 10
      [Edge pins_low 4, Frc1_fire pins_low 0, Edge pins_high 4, Frc2_fire pins_high 5,
       Edge pins_low 4, Frc1_fire pins_low 15, Edge pins_high 4, Frc2_fire pins_high 20]
      single_and_double
      = Inr s' \<and>
      calls s' = [(Handler 2, 4)] \<and> press_count (buttons s' ! 0) = 0 \<and>
      armed (press_timer (buttons s' ! 0)) = None)"
proof -
  note M = held_since_1000_eq
  note S = single_and_double_eq
  have z: "(10 :: u32) \<noteq> 0" by simp
  have h: "pins_high (used_gpio held_since_1000)"
    "button_find_by_gpio (buttons held_since_1000) (used_gpio held_since_1000) = Some 0"
    "doublepress_callback_fn (buttons held_since_1000 ! 0) \<noteq> NULL"
    "1020 - last_event_time (buttons held_since_1000 ! 0) \<le> LONGPRESS_TIME div 10"
    by (simp_all add: M pins_high_def LONGPRESS_TIME_def)
  have g: "\<not> pins_low 4" "pins_high 4"
    "button_find_by_gpio (buttons single_and_double) 4
       = Some 0"
    "doublepress_callback_fn (buttons single_and_double ! 0)
       \<noteq> NULL"
    "press_count (buttons single_and_double ! 0)
       = 0"
    "(5 :: u32) - 0 \<le> LONGPRESS_TIME div 10" "(20 :: u32) - 15 \<le> LONGPRESS_TIME div 10"
    by (simp_all add: S pins_high_def pins_low_def LONGPRESS_TIME_def)
  note inst = double_press
    [where gpio_read = pins_high and m = held_since_1000 and i = 0 and now = 1020
       and tick_period = 10 and lo = pins_low and hi = pins_high and p = 4
       and s = single_and_double
       and j = 0 and down_a = 0 and up_a = 5 and down_b = 15 and up_b = 20]
  from inst z h have r1: "\<exists>m'. push_up_timer_callback 10 pins_high 1020 held_since_1000 = Inr m' \<and>
      calls m' = [] \<and> press_count (buttons m' ! 0) = 1 \<and>
      armed (press_timer (buttons m' ! 0)) = Some 400"
    by (simp add: M DOUBLEPRESS_TIME_def)
  from inst z g have r2: "\<exists>s'. run 10
      [Edge pins_low 4, Frc1_fire pins_low 0, Edge pins_high 4, Frc2_fire pins_high 5,
       Edge pins_low 4, Frc1_fire pins_low 15, Edge pins_high 4, Frc2_fire pins_high 20]
      single_and_double
      = Inr s' \<and>
      calls s' = [(Handler 2, 4)] \<and> press_count (buttons s' ! 0) = 0 \<and>
      armed (press_timer (buttons s' ! 0)) = None"
    by (simp add: S)
  from z h g r1 r2 show ?thesis by (simp only: simp_thms)
qed

subsection \<open>C10: clearing a slot\<close>

text \<open>
  C10: on a registered pin, \<^verbatim>\<open>adv_button_register_callback_fn\<close> with a null handler
  and kind 2, 3, 4 or 5 returns 0 and sets the double, long, very-long or hold slot to
  \<^verbatim>\<open>NULL\<close>; nothing else changes and no default is put in its place. The next gesture
  of that kind then falls back (for a release, with a tick period that is not 0): with the double slot cleared a short release calls
  the single-press handler at once; with the long slot cleared a long release calls
  the single-press handler (a very long one the very-long handler if bound, else the
  single-press handler); with the very-long slot cleared a very long release calls the
  long handler if bound, else the single-press handler; with the hold slot cleared the
  hold timer calls \<^verbatim>\<open>no_function_callback\<close>.
\<close>

theorem register_null_clears:
  assumes reg: "button_find_by_gpio (buttons m) p = Some i"
  shows
    "adv_button_register_callback_fn p NULL 2 m =
       (0, m\<lparr>buttons := (buttons m)[i := (buttons m ! i)\<lparr>doublepress_callback_fn := NULL\<rparr>]\<rparr>) \<and>
     adv_button_register_callback_fn p NULL 3 m =
       (0, m\<lparr>buttons := (buttons m)[i := (buttons m ! i)\<lparr>longpress_callback_fn := NULL\<rparr>]\<rparr>) \<and>
     adv_button_register_callback_fn p NULL 4 m =
       (0, m\<lparr>buttons := (buttons m)[i := (buttons m ! i)\<lparr>verylongpress_callback_fn := NULL\<rparr>]\<rparr>) \<and>
     adv_button_register_callback_fn p NULL 5 m =
       (0, m\<lparr>buttons := (buttons m)[i := (buttons m ! i)\<lparr>holdpress_callback_fn := NULL\<rparr>]\<rparr>) \<and>
     (tick_period \<noteq> 0 \<and> singlepress_callback_fn (buttons m ! i) \<noteq> NULL \<and> hi p \<and>
      now_s - last_event_time (buttons m ! i) \<le> LONGPRESS_TIME div tick_period \<longrightarrow>
        (\<exists>m'. run tick_period [Register_callback p NULL 2, Edge hi p, Frc2_fire hi now_s] m = Inr m' \<and>
           calls m' = calls m @ [(singlepress_callback_fn (buttons m ! i), p)])) \<and>
     (tick_period \<noteq> 0 \<and> singlepress_callback_fn (buttons m ! i) \<noteq> NULL \<and> hi p \<and>
      LONGPRESS_TIME div tick_period < now_l - last_event_time (buttons m ! i) \<longrightarrow>
        (\<exists>m'. run tick_period [Register_callback p NULL 3, Edge hi p, Frc2_fire hi now_l] m = Inr m' \<and>
           calls m' = calls m @
             [(if VERYLONGPRESS_TIME div tick_period < now_l - last_event_time (buttons m ! i) \<and>
                  verylongpress_callback_fn (buttons m ! i) \<noteq> NULL
               then verylongpress_callback_fn (buttons m ! i)
               else singlepress_callback_fn (buttons m ! i), p)])) \<and>
     (tick_period \<noteq> 0 \<and> singlepress_callback_fn (buttons m ! i) \<noteq> NULL \<and> hi p \<and>
      VERYLONGPRESS_TIME div tick_period < now_v - last_event_time (buttons m ! i) \<longrightarrow>
        (\<exists>m'. run tick_period [Register_callback p NULL 4, Edge hi p, Frc2_fire hi now_v] m = Inr m' \<and>
           calls m' = calls m @
             [(if longpress_callback_fn (buttons m ! i) \<noteq> NULL
               then longpress_callback_fn (buttons m ! i)
               else singlepress_callback_fn (buttons m ! i), p)])) \<and>
     (\<not> lo p \<longrightarrow>
        (\<exists>m'. run tick_period [Register_callback p NULL 5, Hold_timer_fire lo i] m = Inr m' \<and>
           calls m' = calls m @ [(No_function_callback, p)]))"
proof -
  from find_Some_D [OF reg] have i: "i < length (buttons m)" "gpio (buttons m ! i) = p" by simp_all
  have short: "\<not> VERYLONGPRESS_TIME div tick_period < e" "\<not> LONGPRESS_TIME div tick_period < e"
    if "e \<le> LONGPRESS_TIME div tick_period" for e
    using short_not_very_long [OF that] by simp_all
  show ?thesis
    using reg i short
    by (simp add: adv_button_register_callback_fn_def adv_button_intr_callback_def
          push_up_timer_callback_def adv_button_hold_callback_def upd_button_def call_fn_def
          Let_def sdk_os_timer_disarm_def sdk_os_timer_arm_def find_list_update)
qed

theorem register_null_clears_witness:
  "(10 :: u32) \<noteq> 0 \<and>
   button_find_by_gpio (buttons held_since_1000) 4 = Some 0 \<and>
   singlepress_callback_fn (buttons held_since_1000 ! 0) \<noteq> NULL \<and>
   pins_high 4 \<and> \<not> pins_low 4 \<and>
   fst (adv_button_register_callback_fn 4 NULL 2 held_since_1000) = 0 \<and>
   doublepress_callback_fn
     (buttons (snd (adv_button_register_callback_fn 4 NULL 2 held_since_1000)) ! 0) = NULL \<and>
   longpress_callback_fn
     (buttons (snd (adv_button_register_callback_fn 4 NULL 3 held_since_1000)) ! 0) = NULL \<and>
   verylongpress_callback_fn
     (buttons (snd (adv_button_register_callback_fn 4 NULL 4 held_since_1000)) ! 0) = NULL \<and>
   holdpress_callback_fn
     (buttons (snd (adv_button_register_callback_fn 4 NULL 5 held_since_1000)) ! 0) = NULL \<and>
   1020 - last_event_time (buttons held_since_1000 ! 0) \<le> LONGPRESS_TIME div 10 \<and>
   (\<exists>m'. run 10 [Register_callback 4 NULL 2, Edge pins_high 4, Frc2_fire pins_high 1020]
           held_since_1000 = Inr m' \<and> calls m' = [(Handler 1, 4)]) \<and>
   LONGPRESS_TIME div 10 < 1100 - last_event_time (buttons held_since_1000 ! 0) \<and>
   (\<exists>m'. run 10 [Register_callback 4 NULL 3, Edge pins_high 4, Frc2_fire pins_high 1100]
           held_since_1000 = Inr m' \<and> calls m' = [(Handler 1, 4)]) \<and>
   VERYLONGPRESS_TIME div 10 < 1121 - last_event_time (buttons held_since_1000 ! 0) \<and>
   (\<exists>m'. run 10 [Register_callback 4 NULL 4, Edge pins_high 4, Frc2_fire pins_high 1121]
           held_since_1000 = Inr m' \<and> calls m' = [(Handler 3, 4)]) \<and>
   (\<exists>m'. run 10 [Register_callback 4 NULL 5, Hold_timer_fire pins_low 0]
           held_since_1000 = Inr m' \<and> calls m' = [(No_function_callback, 4)])"
proof -
  note M = held_since_1000_eq
  have z: "(10 :: u32) \<noteq> 0" by simp
  have h: "button_find_by_gpio (buttons held_since_1000) 4 = Some 0"
    "singlepress_callback_fn (buttons held_since_1000 ! 0) \<noteq> NULL"
    "pins_high 4" "\<not> pins_low 4"
    by (simp_all add: M pins_high_def pins_low_def)
  have t: "1020 - last_event_time (buttons held_since_1000 ! 0) \<le> LONGPRESS_TIME div 10"
    "LONGPRESS_TIME div 10 < 1100 - last_event_time (buttons held_since_1000 ! 0)"
    "\<not> VERYLONGPRESS_TIME div 10 < 1100 - last_event_time (buttons held_since_1000 ! 0)"
    "VERYLONGPRESS_TIME div 10 < 1121 - last_event_time (buttons held_since_1000 ! 0)"
    by (simp_all add: M LONGPRESS_TIME_def VERYLONGPRESS_TIME_def)
  have v: "calls held_since_1000 = []"
    "singlepress_callback_fn (buttons held_since_1000 ! 0) = Handler 1"
    "longpress_callback_fn (buttons held_since_1000 ! 0) = Handler 3"
    "0 < length (buttons held_since_1000)"
    by (simp_all add: M)
  note inst = register_null_clears
    [where m = held_since_1000 and p = 4 and i = 0 and hi = pins_high and lo = pins_low
       and tick_period = 10 and now_s = 1020 and now_l = 1100 and now_v = 1121, OF h(1)]
  from inst v(4) have slots:
    "fst (adv_button_register_callback_fn 4 NULL 2 held_since_1000) = 0"
    "doublepress_callback_fn
       (buttons (snd (adv_button_register_callback_fn 4 NULL 2 held_since_1000)) ! 0) = NULL"
    "longpress_callback_fn
       (buttons (snd (adv_button_register_callback_fn 4 NULL 3 held_since_1000)) ! 0) = NULL"
    "verylongpress_callback_fn
       (buttons (snd (adv_button_register_callback_fn 4 NULL 4 held_since_1000)) ! 0) = NULL"
    "holdpress_callback_fn
       (buttons (snd (adv_button_register_callback_fn 4 NULL 5 held_since_1000)) ! 0) = NULL"
    by simp_all
  from inst z h(2-4) t v(1-3) have runs:
    "\<exists>m'. run 10 [Register_callback 4 NULL 2, Edge pins_high 4, Frc2_fire pins_high 1020]
           held_since_1000 = Inr m' \<and> calls m' = [(Handler 1, 4)]"
    "\<exists>m'. run 10 [Register_callback 4 NULL 3, Edge pins_high 4, Frc2_fire pins_high 1100]
           held_since_1000 = Inr m' \<and> calls m' = [(Handler 1, 4)]"
    "\<exists>m'. run 10 [Register_callback 4 NULL 4, Edge pins_high 4, Frc2_fire pins_high 1121]
           held_since_1000 = Inr m' \<and> calls m' = [(Handler 3, 4)]"
    "\<exists>m'. run 10 [Register_callback 4 NULL 5, Hold_timer_fire pins_low 0]
           held_since_1000 = Inr m' \<and> calls m' = [(No_function_callback, 4)]"
    by (simp_all only: simp_thms append_Nil if_True if_False fn_ptr.distinct)
  from z h t slots runs show ?thesis by (simp only: simp_thms)
qed

subsection \<open>C7: the single-press slot is never empty\<close>

text \<open>
  C7: every button of the list has a single-press handler that is not \<^verbatim>\<open>NULL\<close>. This
  holds in every machine a run reaches from an empty list, and every step keeps it.
  \<^verbatim>\<open>adv_button_create\<close> of a new pin puts the button at the head of the list with
  \<^verbatim>\<open>no_function_callback\<close> in the slot, and registering a null handler for kind 1
  puts \<^verbatim>\<open>no_function_callback\<close> back instead of clearing the slot.
\<close>

theorem single_press_always_bound:
  "(buttons m0 = [] \<and> run tp es m0 = Inr m \<longrightarrow> single_bound m) \<and>
   (single_bound m \<and> step tp e m = Inr m' \<longrightarrow> single_bound m') \<and>
   (button_find_by_gpio (buttons m) p = None \<longrightarrow>
      (\<exists>c. adv_button_create True p m = Inr (0, c) \<and>
         button_find_by_gpio (buttons c) p = Some 0 \<and>
         gpio (buttons c ! 0) = p \<and>
         singlepress_callback_fn (buttons c ! 0) = No_function_callback)) \<and>
   (button_find_by_gpio (buttons m) q = Some i \<longrightarrow>
      (\<exists>c. adv_button_register_callback_fn q NULL 1 m = (0, c) \<and>
         button_find_by_gpio (buttons c) q = Some i \<and>
         singlepress_callback_fn (buttons c ! i) = No_function_callback))"
proof (intro conjI impI)
  assume "buttons m0 = [] \<and> run tp es m0 = Inr m"
  then have "single_bound m0" "run tp es m0 = Inr m" by (simp_all add: single_bound_def)
  then show "single_bound m" by (rule run_single_bound)
next
  assume "single_bound m \<and> step tp e m = Inr m'"
  then show "single_bound m'" using step_single_bound by blast
next
  assume "button_find_by_gpio (buttons m) p = None"
  then show "\<exists>c. adv_button_create True p m = Inr (0, c) \<and>
         button_find_by_gpio (buttons c) p = Some 0 \<and>
         gpio (buttons c ! 0) = p \<and>
         singlepress_callback_fn (buttons c ! 0) = No_function_callback"
    by (simp add: adv_button_create_def Let_def upd_button_def zero_button_def)
next
  assume reg: "button_find_by_gpio (buttons m) q = Some i"
  from find_Some_D [OF reg] have "i < length (buttons m)" by simp
  with reg show "\<exists>c. adv_button_register_callback_fn q NULL 1 m = (0, c) \<and>
         button_find_by_gpio (buttons c) q = Some i \<and>
         singlepress_callback_fn (buttons c ! i) = No_function_callback"
    by (simp add: adv_button_register_callback_fn_def upd_button_def find_list_update)
qed

theorem single_press_always_bound_witness:
  "buttons boot = [] \<and>
   run 10 [Create 4 True, Register_callback 4 (Handler 1) 1, Register_callback 4 (Handler 2) 2] boot
     = Inr single_and_double \<and>
   single_bound single_and_double \<and>
   (\<exists>m'. step 10 (Register_callback 4 NULL 1) single_and_double = Inr m' \<and> single_bound m') \<and>
   button_find_by_gpio (buttons single_and_double) 5 = None \<and>
   (\<exists>c. adv_button_create True 5 single_and_double = Inr (0, c) \<and>
      button_find_by_gpio (buttons c) 5 = Some 0 \<and>
      singlepress_callback_fn (buttons c ! 0) = No_function_callback) \<and>
   button_find_by_gpio (buttons single_and_double) 4 = Some 0 \<and>
   (\<exists>c. adv_button_register_callback_fn 4 NULL 1 single_and_double = (0, c) \<and>
      singlepress_callback_fn (buttons c ! 0) = No_function_callback)"
proof -
  note S = single_and_double_eq
  have r: "run 10 [Create 4 True, Register_callback 4 (Handler 1) 1,
      Register_callback 4 (Handler 2) 2] boot = Inr single_and_double"
    by (simp add: single_and_double_def state_after_def eval_defs)
  obtain m' where st: "step 10 (Register_callback 4 NULL 1) single_and_double = Inr m'"
    by simp
  have f: "button_find_by_gpio (buttons single_and_double) 5 = None"
    "button_find_by_gpio (buttons single_and_double) 4 = Some 0"
    "buttons boot = []"
    by (simp_all add: S boot_def)
  note inst = single_press_always_bound
    [where ?m0.0 = boot and tp = 10 and m = single_and_double and m' = m'
       and es = "[Create 4 True, Register_callback 4 (Handler 1) 1,
                  Register_callback 4 (Handler 2) 2]"
       and e = "Register_callback 4 NULL 1" and p = 5 and q = 4 and i = 0]
  from inst f(3) r have sb: "single_bound single_and_double" by blast
  from inst sb st have "single_bound m'" by blast
  with st have s2: "\<exists>m'. step 10 (Register_callback 4 NULL 1) single_and_double = Inr m' \<and>
      single_bound m'" by blast
  from inst f(1) have c1: "\<exists>c. adv_button_create True 5 single_and_double = Inr (0, c) \<and>
      button_find_by_gpio (buttons c) 5 = Some 0 \<and>
      singlepress_callback_fn (buttons c ! 0) = No_function_callback" by blast
  from inst f(2) have c2: "\<exists>c. adv_button_register_callback_fn 4 NULL 1 single_and_double = (0, c) \<and>
      singlepress_callback_fn (buttons c ! 0) = No_function_callback" by blast
  from f r sb s2 c1 c2 show ?thesis by (simp only: simp_thms)
qed

subsection \<open>C9: the press count is 0 or 1\<close>

text \<open>
  C9: in every machine a run reaches from an empty list, the press count of every
  button is 0 or 1, and every step (create, register, destroy, edge, the two debounce
  interrupts, the press timer, the hold timer) keeps it so. The paths that make a call
  after reading or resetting the count leave it at 0: a release of a button with a
  double-press handler that calls something, the press timer, and a hold timer that
  calls something.
\<close>

theorem press_count_small:
  "(buttons m0 = [] \<and> run tp es m0 = Inr m \<longrightarrow> count_small m) \<and>
   (count_small m \<and> step tp e m = Inr m' \<longrightarrow> count_small m') \<and>
   (button_find_by_gpio (buttons m) (used_gpio m) = Some i \<and>
    doublepress_callback_fn (buttons m ! i) \<noteq> NULL \<and>
    push_up_timer_callback tp rd now m = Inr u \<and> calls u \<noteq> calls m \<longrightarrow>
      press_count (buttons u ! i) = 0) \<and>
   (adv_button_single_callback j m = Inr v \<longrightarrow> press_count (buttons v ! j) = 0) \<and>
   (adv_button_hold_callback rd' k m = Inr w \<and> calls w \<noteq> calls m \<longrightarrow>
      press_count (buttons w ! k) = 0)"
proof (intro conjI impI)
  assume "buttons m0 = [] \<and> run tp es m0 = Inr m"
  then have "count_small m0" "run tp es m0 = Inr m" by (simp_all add: count_small_def)
  then show "count_small m" by (rule run_count_small)
next
  assume "count_small m \<and> step tp e m = Inr m'"
  then show "count_small m'" using step_count_small by blast
next
  assume a: "button_find_by_gpio (buttons m) (used_gpio m) = Some i \<and>
    doublepress_callback_fn (buttons m ! i) \<noteq> NULL \<and>
    push_up_timer_callback tp rd now m = Inr u \<and> calls u \<noteq> calls m"
  then have "i < length (buttons m)" using find_Some_D by blast
  with a show "press_count (buttons u ! i) = 0"
    by (auto simp: push_up_timer_callback_def Let_def upd_button_def call_fn_def
        split: if_splits)
next
  assume "adv_button_single_callback j m = Inr v"
  then show "press_count (buttons v ! j) = 0"
    by (auto simp: adv_button_single_callback_def Let_def upd_button_def call_fn_def
        split: if_splits)
next
  assume "adv_button_hold_callback rd' k m = Inr w \<and> calls w \<noteq> calls m"
  then show "press_count (buttons w ! k) = 0"
    by (auto simp: adv_button_hold_callback_def Let_def upd_button_def call_fn_def
        split: if_splits)
qed

theorem press_count_small_witness:
  "buttons boot = [] \<and>
   run 10 [Create 4 True,
      Register_callback 4 (Handler 1) 1, Register_callback 4 (Handler 2) 2,
      Register_callback 4 (Handler 3) 3, Register_callback 4 (Handler 4) 4,
      Register_callback 4 (Handler 5) 5,
      Edge pins_low 4, Frc1_fire pins_low 1000, Edge pins_high 4] boot = Inr held_since_1000 \<and>
   count_small held_since_1000 \<and>
   (\<exists>m'. step 10 (Frc2_fire pins_high 1020) held_since_1000 = Inr m' \<and>
      press_count (buttons m' ! 0) = 1 \<and> count_small m') \<and>
   button_find_by_gpio (buttons held_since_1000) (used_gpio held_since_1000) = Some 0 \<and>
   doublepress_callback_fn (buttons held_since_1000 ! 0) \<noteq> NULL \<and>
   (\<exists>u. push_up_timer_callback 10 pins_high 1121 held_since_1000 = Inr u \<and>
      calls u \<noteq> calls held_since_1000 \<and> press_count (buttons u ! 0) = 0) \<and>
   (\<exists>v. adv_button_single_callback 0 held_since_1000 = Inr v \<and>
      press_count (buttons v ! 0) = 0) \<and>
   (\<exists>w. adv_button_hold_callback pins_low 0 held_since_1000 = Inr w \<and>
      calls w \<noteq> calls held_since_1000 \<and> press_count (buttons w ! 0) = 0)"
proof -
  note M = held_since_1000_eq
  have r: "run 10 [Create 4 True,
      Register_callback 4 (Handler 1) 1, Register_callback 4 (Handler 2) 2,
      Register_callback 4 (Handler 3) 3, Register_callback 4 (Handler 4) 4,
      Register_callback 4 (Handler 5) 5,
      Edge pins_low 4, Frc1_fire pins_low 1000, Edge pins_high 4] boot = Inr held_since_1000"
    by (simp add: held_since_1000_def state_after_def eval_defs pins_low_def pins_high_def)
  have f: "buttons boot = []"
    "button_find_by_gpio (buttons held_since_1000) (used_gpio held_since_1000) = Some 0"
    "doublepress_callback_fn (buttons held_since_1000 ! 0) \<noteq> NULL"
    by (simp_all add: M boot_def)
  obtain m' where st: "step 10 (Frc2_fire pins_high 1020) held_since_1000 = Inr m'"
    and st1: "press_count (buttons m' ! 0) = 1"
    by (simp add: M eval_defs pins_high_def)
  obtain u where u: "push_up_timer_callback 10 pins_high 1121 held_since_1000 = Inr u"
    and u1: "calls u \<noteq> calls held_since_1000"
    by (simp add: M eval_defs pins_high_def)
  obtain v where v: "adv_button_single_callback 0 held_since_1000 = Inr v"
    by (simp add: M eval_defs)
  obtain w where w: "adv_button_hold_callback pins_low 0 held_since_1000 = Inr w"
    and w1: "calls w \<noteq> calls held_since_1000"
    by (simp add: M eval_defs pins_low_def)
  note inst = press_count_small
    [where ?m0.0 = boot and tp = 10 and m = held_since_1000 and m' = m'
       and es = "[Create 4 True,
          Register_callback 4 (Handler 1) 1, Register_callback 4 (Handler 2) 2,
          Register_callback 4 (Handler 3) 3, Register_callback 4 (Handler 4) 4,
          Register_callback 4 (Handler 5) 5,
          Edge pins_low 4, Frc1_fire pins_low 1000, Edge pins_high 4]"
       and e = "Frc2_fire pins_high 1020" and i = 0 and rd = pins_high and now = 1121
       and u = u and j = 0 and v = v and rd' = pins_low and k = 0 and w = w]
  from inst f(1) r have cs: "count_small held_since_1000" by blast
  from inst cs st have "count_small m'" by blast
  with st st1 have s2: "\<exists>m'. step 10 (Frc2_fire pins_high 1020) held_since_1000 = Inr m' \<and>
      press_count (buttons m' ! 0) = 1 \<and> count_small m'" by blast
  from inst f(2,3) u u1 have "press_count (buttons u ! 0) = 0" by blast
  with u u1 have s3: "\<exists>u. push_up_timer_callback 10 pins_high 1121 held_since_1000 = Inr u \<and>
      calls u \<noteq> calls held_since_1000 \<and> press_count (buttons u ! 0) = 0" by blast
  from inst v have "press_count (buttons v ! 0) = 0" by blast
  with v have s4: "\<exists>v. adv_button_single_callback 0 held_since_1000 = Inr v \<and>
      press_count (buttons v ! 0) = 0" by blast
  from inst w w1 have "press_count (buttons w ! 0) = 0" by blast
  with w w1 have s5: "\<exists>w. adv_button_hold_callback pins_low 0 held_since_1000 = Inr w \<and>
      calls w \<noteq> calls held_since_1000 \<and> press_count (buttons w ! 0) = 0" by blast
  from f r cs s2 s3 s4 s5 show ?thesis by (simp only: simp_thms)
qed

end
